theory Spec2Isabelle
  imports Complex_Main
begin

section \<open>The timer session engine of App.tsx\<close>

text \<open>
  The component \<open>App\<close> keeps its timer in React state (\<open>useState\<close>), in three mutable
  refs (\<open>useRef\<close>) and in the browser's interval table. The handlers are embedded as
  functions from state to state. What the handlers do to the outside world is part of
  the state as well: the sound cues played, the sessions handed to \<open>saveSession\<close>, the
  errors written with \<open>console.error\<close>, the promise rejections nobody handles and the
  advisory requests still in flight.

  Conventions of the embedding.
  \<^item> A JavaScript \<open>number\<close> is an exact rational. Rounding of IEEE doubles is not
    modelled: clock readings, durations and differences of the two are whole numbers of
    milliseconds and exact in doubles as well, but the quotient
    \<open>diff / totalDurationRef.current * 100\<close> and the product that \<open>handleResume\<close>
    forms from it are rounded there, so an equation below that goes through both holds
    in doubles only up to that rounding. The non-finite values are not modelled either;
    in this code they can only come from that quotient with a zero divisor, and every
    statement below that depends on the quotient has a nonzero divisor.
  \<^item> \<open>Date.now()\<close> is an argument \<open>now\<close> of each handler that reads the clock.
  \<^item> Every render creates the handlers afresh, closing over the state of that render.
    The interval callback installed by \<open>handleStart\<close> or \<open>handleResume\<close> calls the
    \<open>handleComplete\<close> of the render in which the button was pressed, so it sees the
    \<open>session\<close> of that render; the refs are shared and always current. An entry of the
    interval table therefore carries the session its callback has captured.
  \<^item> \<open>saveSession\<close>, \<open>getMotivationalTip\<close> and \<open>getCelebrationMessage\<close> live in
    service modules outside this file. Whether a call succeeds is a parameter: of the
    completion for the append, of the event that settles a request for the fetches.
\<close>

subsection \<open>Data\<close>

datatype AppStage = SETUP | RUNNING | PAUSED | COMPLETED

datatype GoalCategory = FOCUS | CREATIVE | CHORE | LEARNING | REST

record TimerSession =
  durationMinutes :: rat
  category :: GoalCategory
  intention :: string
  aiMotivation :: "string option"
  completedAt :: "rat option"

datatype cue = PlayStart | PlayPause | PlayResume | PlayComplete

text \<open>The outcome of the call \<open>saveSession(session)\<close>: it returns, or it throws.\<close>

datatype append_result = Appended | AppendThrew

datatype rejection = AppendFailure | CelebrationFailure string

record app =
  stage :: AppStage
  session :: TimerSession
  timeLeft :: rat
  smoothProgress :: rat
  motivationLoading :: bool
  celebrationMsg :: string
  endTimeRef :: "rat option"
  timerIdRef :: "nat option"
  totalDurationRef :: rat
  intervals :: "(nat \<times> TimerSession) list"
  nextTimerId :: nat
  cues :: "cue list"
  saved :: "TimerSession list"
  tipRequests :: "(GoalCategory \<times> rat \<times> string) list"
  celebrationRequests :: "GoalCategory list"
  consoleErrors :: "string list"
  unhandledRejections :: "rejection list"

definition PRESET_TIMES :: "rat list" where
  "PRESET_TIMES = [5, 15, 25, 45, 60]"

text \<open>
  The state of the first render: the initial values of \<open>useState\<close> and \<open>useRef\<close>, an
  empty interval table whose first handle will be 1 (\<open>setInterval\<close> returns positive
  handles), and nothing played, saved, logged or requested yet.
\<close>

definition initial :: app where
  "initial = \<lparr>
     stage = SETUP,
     session = \<lparr>durationMinutes = 25, category = FOCUS, intention = [],
                aiMotivation = None, completedAt = None\<rparr>,
     timeLeft = 25 * 60,
     smoothProgress = 100,
     motivationLoading = False,
     celebrationMsg = [],
     endTimeRef = None,
     timerIdRef = None,
     totalDurationRef = 0,
     intervals = [],
     nextTimerId = 1,
     cues = [],
     saved = [],
     tipRequests = [],
     celebrationRequests = [],
     consoleErrors = [],
     unhandledRejections = [] \<rparr>"

subsection \<open>The interval table\<close>

text \<open>\<open>clearInterval(id)\<close>: the task with that handle never runs again.\<close>

definition clearInterval :: "nat \<Rightarrow> app \<Rightarrow> app" where
  "clearInterval i s = s\<lparr>intervals := filter (\<lambda>p. fst p \<noteq> i) (intervals s)\<rparr>"

text \<open>
  \<open>if (timerIdRef.current) clearInterval(timerIdRef.current)\<close>: the test is
  JavaScript truthiness, false for \<open>null\<close> and for the number 0.
\<close>

definition clearCurrentTimer :: "app \<Rightarrow> app" where
  "clearCurrentTimer s =
     (case timerIdRef s of
        None \<Rightarrow> s
      | Some i \<Rightarrow> if i \<noteq> 0 then clearInterval i s else s)"

subsection \<open>Handlers\<close>

text \<open>
  \<open>handleComplete\<close> up to its \<open>await\<close>. The argument \<open>captured\<close> is the \<open>session\<close>
  of the closure that runs. A throwing \<open>saveSession\<close> ends the async function there:
  its promise rejects, and the interval callback that called it drops the promise.
\<close>

definition handleComplete :: "append_result \<Rightarrow> TimerSession \<Rightarrow> app \<Rightarrow> app" where
  "handleComplete ap captured s =
     (let s1 = s\<lparr>cues := cues s @ [PlayComplete]\<rparr>;
          s2 = clearCurrentTimer s1
      in case ap of
           AppendThrew \<Rightarrow>
             s2\<lparr>unhandledRejections := unhandledRejections s2 @ [AppendFailure]\<rparr>
         | Appended \<Rightarrow>
             s2\<lparr>saved := saved s2 @ [captured],
                stage := COMPLETED,
                timeLeft := 0,
                smoothProgress := 0,
                celebrationRequests := celebrationRequests s2 @ [category captured]\<rparr>)"

text \<open>
  The callback handed to \<open>setInterval\<close>; \<open>handleStart\<close> and \<open>handleResume\<close> contain the
  same text. It runs only while its handle \<open>i\<close> is in the table. \<open>!endTimeRef.current\<close>
  holds for \<open>null\<close> and for 0.
\<close>

definition intervalCallback :: "append_result \<Rightarrow> nat \<Rightarrow> rat \<Rightarrow> app \<Rightarrow> app" where
  "intervalCallback ap i now s =
     (case map_of (intervals s) i of
        None \<Rightarrow> s
      | Some captured \<Rightarrow>
          (case endTimeRef s of
             None \<Rightarrow> s
           | Some e \<Rightarrow>
               if e = 0 then s
               else
                 let diff = e - now in
                 if diff \<le> 0 then handleComplete ap captured s
                 else
                   let percentage = max 0 ((diff / totalDurationRef s) * 100) in
                   s\<lparr>smoothProgress := percentage,
                     timeLeft := of_int \<lceil>diff / 1000\<rceil>\<rparr>))"

text \<open>\<open>handleStart\<close> up to its \<open>await\<close>; an empty \<open>intention\<close> is falsy.\<close>

definition handleStart :: "rat \<Rightarrow> app \<Rightarrow> app" where
  "handleStart now s =
     (let durationMs = durationMinutes (session s) * 60 * 1000;
          tid = nextTimerId s;
          s1 = s\<lparr>cues := cues s @ [PlayStart],
                 stage := RUNNING,
                 totalDurationRef := durationMs,
                 timeLeft := durationMinutes (session s) * 60,
                 smoothProgress := 100,
                 endTimeRef := Some (now + durationMs),
                 timerIdRef := Some tid,
                 intervals := intervals s @ [(tid, session s)],
                 nextTimerId := tid + 1\<rparr>
      in if intention (session s) \<noteq> []
         then s1\<lparr>motivationLoading := True,
                 tipRequests := tipRequests s1 @
                   [(category (session s), durationMinutes (session s), intention (session s))]\<rparr>
         else s1)"

definition handlePause :: "app \<Rightarrow> app" where
  "handlePause s =
     (let s1 = s\<lparr>cues := cues s @ [PlayPause]\<rparr>;
          s2 = (case timerIdRef s1 of
                  None \<Rightarrow> s1
                | Some i \<Rightarrow>
                    if i \<noteq> 0 then (clearInterval i s1)\<lparr>timerIdRef := None\<rparr> else s1)
      in s2\<lparr>stage := PAUSED\<rparr>)"

text \<open>
  \<open>handleResume\<close> reads \<open>smoothProgress\<close> from the render in which the button was
  pressed; no tick runs between that render and the click while the machine is PAUSED,
  so this is the current value. The share of the total is an exact product here.
\<close>

definition handleResume :: "rat \<Rightarrow> app \<Rightarrow> app" where
  "handleResume now s =
     (let remainingMs = (smoothProgress s / 100) * totalDurationRef s;
          tid = nextTimerId s
      in s\<lparr>cues := cues s @ [PlayResume],
           endTimeRef := Some (now + remainingMs),
           stage := RUNNING,
           timerIdRef := Some tid,
           intervals := intervals s @ [(tid, session s)],
           nextTimerId := tid + 1\<rparr>)"

definition handleStop :: "app \<Rightarrow> app" where
  "handleStop s =
     (let s1 = clearCurrentTimer s
      in s1\<lparr>stage := SETUP,
            session := (session s1)\<lparr>aiMotivation := None\<rparr>,
            smoothProgress := 100\<rparr>)"

text \<open>The button "Start New Session" of the completed view: \<open>setStage(AppStage.SETUP)\<close>.\<close>

definition startNewSession :: "app \<Rightarrow> app" where
  "startNewSession s = s\<lparr>stage := SETUP\<rparr>"

text \<open>The three controls of the setup view.\<close>

definition selectCategory :: "GoalCategory \<Rightarrow> app \<Rightarrow> app" where
  "selectCategory cat s = s\<lparr>session := (session s)\<lparr>category := cat\<rparr>\<rparr>"

definition selectDuration :: "rat \<Rightarrow> app \<Rightarrow> app" where
  "selectDuration time s = s\<lparr>session := (session s)\<lparr>durationMinutes := time\<rparr>\<rparr>"

definition editIntention :: "string \<Rightarrow> app \<Rightarrow> app" where
  "editIntention txt s = s\<lparr>session := (session s)\<lparr>intention := txt\<rparr>\<rparr>"

subsection \<open>Continuations of the two advisory fetches\<close>

text \<open>
  The rest of \<open>handleStart\<close> after \<open>await getMotivationalTip(...)\<close>: the \<open>try\<close> branch
  when the promise resolves, the \<open>catch\<close> branch when it rejects, \<open>finally\<close> in both.
\<close>

definition tipResolved :: "string \<Rightarrow> app \<Rightarrow> app" where
  "tipResolved tip s =
     s\<lparr>session := (session s)\<lparr>aiMotivation := Some tip\<rparr>,
       motivationLoading := False,
       tipRequests := tl (tipRequests s)\<rparr>"

definition tipRejected :: "string \<Rightarrow> app \<Rightarrow> app" where
  "tipRejected e s =
     s\<lparr>consoleErrors := consoleErrors s @ [e],
       motivationLoading := False,
       tipRequests := tl (tipRequests s)\<rparr>"

text \<open>
  The rest of \<open>handleComplete\<close> after \<open>await getCelebrationMessage(...)\<close>. No \<open>try\<close>
  surrounds the \<open>await\<close>: a rejection ends the async function, whose promise nobody holds.
\<close>

definition celebrationResolved :: "string \<Rightarrow> app \<Rightarrow> app" where
  "celebrationResolved msg s =
     s\<lparr>celebrationMsg := msg,
       celebrationRequests := tl (celebrationRequests s)\<rparr>"

definition celebrationRejected :: "string \<Rightarrow> app \<Rightarrow> app" where
  "celebrationRejected e s =
     s\<lparr>unhandledRejections := unhandledRejections s @ [CelebrationFailure e],
       celebrationRequests := tl (celebrationRequests s)\<rparr>"

subsection \<open>What the view offers\<close>

text \<open>
  The render functions decide which handler can be called in which stage:
  \<open>renderSetup\<close> (stage SETUP) holds the category, preset and intention controls and the
  start button; \<open>renderTimer\<close> (RUNNING or PAUSED) holds "Abandon" and either "Pause"
  (RUNNING) or "Resume" (otherwise); \<open>renderCompleted\<close> holds "Start New Session". The
  intention input has \<open>maxLength = 60\<close>. An interval fires while it is in the table, a
  fetch settles while it is in flight.
\<close>

datatype event =
    Start
  | Pause
  | Resume
  | Stop
  | StartNewSession
  | Tick nat append_result
  | SelectCategory GoalCategory
  | SelectDuration rat
  | EditIntention string
  | TipResolved string
  | TipRejected string
  | CelebrationResolved string
  | CelebrationRejected string

fun offered :: "event \<Rightarrow> app \<Rightarrow> bool" where
  "offered Start s = (stage s = SETUP)"
| "offered Pause s = (stage s = RUNNING)"
| "offered Resume s = (stage s = PAUSED)"
| "offered Stop s = (stage s = RUNNING \<or> stage s = PAUSED)"
| "offered StartNewSession s = (stage s = COMPLETED)"
| "offered (Tick i ap) s = (i \<in> fst ` set (intervals s))"
| "offered (SelectCategory cat) s = (stage s = SETUP)"
| "offered (SelectDuration time) s = (stage s = SETUP \<and> time \<in> set PRESET_TIMES)"
| "offered (EditIntention txt) s = (stage s = SETUP \<and> length txt \<le> 60)"
| "offered (TipResolved tip) s = (tipRequests s \<noteq> [])"
| "offered (TipRejected e) s = (tipRequests s \<noteq> [])"
| "offered (CelebrationResolved msg) s = (celebrationRequests s \<noteq> [])"
| "offered (CelebrationRejected e) s = (celebrationRequests s \<noteq> [])"

fun fire :: "event \<Rightarrow> rat \<Rightarrow> app \<Rightarrow> app" where
  "fire Start now s = handleStart now s"
| "fire Pause now s = handlePause s"
| "fire Resume now s = handleResume now s"
| "fire Stop now s = handleStop s"
| "fire StartNewSession now s = startNewSession s"
| "fire (Tick i ap) now s = intervalCallback ap i now s"
| "fire (SelectCategory cat) now s = selectCategory cat s"
| "fire (SelectDuration time) now s = selectDuration time s"
| "fire (EditIntention txt) now s = editIntention txt s"
| "fire (TipResolved tip) now s = tipResolved tip s"
| "fire (TipRejected e) now s = tipRejected e s"
| "fire (CelebrationResolved msg) now s = celebrationResolved msg s"
| "fire (CelebrationRejected e) now s = celebrationRejected e s"

text \<open>
  \<open>reachable t s\<close>: the application can be in state \<open>s\<close> with the clock reading \<open>t\<close> at
  the last event, when the clock is positive and never runs backwards and every event
  is one the view offers.
\<close>

inductive reachable :: "rat \<Rightarrow> app \<Rightarrow> bool" where
  reachable_initial: "0 < t \<Longrightarrow> reachable t initial"
| reachable_step: "reachable t s \<Longrightarrow> t \<le> t' \<Longrightarrow> offered ev s \<Longrightarrow> reachable t' (fire ev t' s)"

text \<open>A run from a list of timed events, for concrete scenarios.\<close>

fun run :: "(event \<times> rat) list \<Rightarrow> app \<Rightarrow> app" where
  "run [] s = s"
| "run ((ev, now) # evs) s = run evs (fire ev now s)"

subsection \<open>Scenarios\<close>

text \<open>
  A 25 minute session with an intention. The tip arrives one second after the start;
  the session then runs to its end without a pause, and the tick at the end completes it.
\<close>

definition tip_then_complete :: app where
  "tip_then_complete =
     run [(EditIntention ''Finish report'', 500), (Start, 1000),
          (TipResolved ''Keep going'', 2000), (Tick 1 Appended, 1501000)] initial"

text \<open>The same session when the tip fetch fails instead.\<close>

definition tip_fetch_fails :: app where
  "tip_fetch_fails =
     run [(EditIntention ''Finish report'', 500), (Start, 1000),
          (TipRejected ''network'', 2000)] initial"

text \<open>A session that completes, after which the celebration fetch fails.\<close>

definition celebration_fetch_fails :: app where
  "celebration_fetch_fails =
     run [(Start, 1000), (Tick 1 Appended, 1501000),
          (CelebrationRejected ''network'', 1502000)] initial"

text \<open>A session at whose end \<open>saveSession\<close> throws.\<close>

definition append_throws :: app where
  "append_throws = run [(Start, 1000), (Tick 1 AppendThrew, 1501000)] initial"

subsection \<open>An invariant of the reachable states\<close>

text \<open>
  With a clock that does not run backwards and the controls the view offers: the
  interval table holds at most one task; a task in the table belongs to a RUNNING
  machine, is the one \<open>timerIdRef\<close> names, and is due no later than one total duration
  from now; while a session is RUNNING or PAUSED its total duration is positive and its
  percentage lies in (0, 100]; a RUNNING machine without a task has seen an append fail.
\<close>

definition engine_inv :: "rat \<Rightarrow> app \<Rightarrow> bool" where
  "engine_inv t s \<longleftrightarrow>
     0 < t \<and> 0 < nextTimerId s \<and> 0 < durationMinutes (session s) \<and>
     (intervals s = [] \<or>
      (\<exists>i c e. intervals s = [(i, c)] \<and> timerIdRef s = Some i \<and> i \<noteq> 0 \<and>
         stage s = RUNNING \<and> endTimeRef s = Some e \<and> 0 < e \<and>
         e \<le> t + totalDurationRef s)) \<and>
     (stage s = RUNNING \<or> stage s = PAUSED \<longrightarrow>
        0 < totalDurationRef s \<and> 0 < smoothProgress s \<and> smoothProgress s \<le> 100) \<and>
     (stage s = RUNNING \<longrightarrow> (\<exists>i. timerIdRef s = Some i \<and> i \<noteq> 0)) \<and>
     (stage s = PAUSED \<longrightarrow> timerIdRef s = None) \<and>
     (stage s = RUNNING \<and> intervals s = [] \<longrightarrow> AppendFailure \<in> set (unhandledRejections s))"

section \<open>Properties\<close>

lemmas handler_defs = handleStart_def handlePause_def handleResume_def handleStop_def
  handleComplete_def intervalCallback_def clearCurrentTimer_def clearInterval_def

lemmas control_defs = startNewSession_def selectCategory_def selectDuration_def
  editIntention_def tipResolved_def tipRejected_def celebrationResolved_def
  celebrationRejected_def

subsection \<open>Arithmetic of the percentage\<close>

lemma percentage_bounds:
  fixes d T :: rat
  assumes "0 < T" "0 < d" "d \<le> T"
  shows "0 < d / T * 100" "d / T * 100 \<le> 100"
  using assms by (simp_all add: field_simps)

lemma percentage_le_100_iff:
  fixes d T :: rat
  assumes "0 < T"
  shows "d / T * 100 \<le> 100 \<longleftrightarrow> d \<le> T"
  using assms by (simp add: pos_divide_le_eq)

lemma remaining_bounds:
  fixes p T :: rat
  assumes "0 < T" "0 < p" "p \<le> 100"
  shows "0 < p / 100 * T" "p / 100 * T \<le> T"
proof -
  show "0 < p / 100 * T" using assms by simp
  have "p / 100 \<le> 1" using assms by simp
  then have "p / 100 * T \<le> 1 * T" using assms(1) by (intro mult_right_mono) simp_all
  then show "p / 100 * T \<le> T" by simp
qed


subsection \<open>A tick needs a task\<close>


subsection \<open>The invariant holds in every reachable state\<close>

lemma inv_initial: "0 < t \<Longrightarrow> engine_inv t initial"
  by (simp add: engine_inv_def initial_def)

lemma inv_start:
  assumes "engine_inv t s" "t \<le> t'" "stage s = SETUP"
  shows "engine_inv t' (handleStart t' s)"
  using assms by (auto simp: engine_inv_def handleStart_def Let_def)

lemma inv_pause:
  assumes "engine_inv t s" "t \<le> t'" "stage s = RUNNING"
  shows "engine_inv t' (handlePause s)"
  using assms
  by (auto simp: engine_inv_def handlePause_def clearInterval_def Let_def split: option.splits)

lemma inv_resume:
  assumes "engine_inv t s" "t \<le> t'" "stage s = PAUSED"
  shows "engine_inv t' (handleResume t' s)"
proof -
  from assms have T: "0 < totalDurationRef s"
    and p: "0 < smoothProgress s" "smoothProgress s \<le> 100"
    and e: "intervals s = []" and n: "0 < nextTimerId s" and t: "0 < t'"
    and d: "0 < durationMinutes (session s)"
    by (auto simp: engine_inv_def)
  note rb = remaining_bounds[OF T p]
  show ?thesis
    using T p e n t d rb by (simp add: engine_inv_def handleResume_def Let_def)
qed

lemma inv_stop:
  assumes "engine_inv t s" "t \<le> t'"
  shows "engine_inv t' (handleStop s)"
  using assms
  by (auto simp: engine_inv_def handleStop_def clearCurrentTimer_def clearInterval_def Let_def
           split: option.splits)

lemma inv_tick:
  assumes "engine_inv t s" "t \<le> t'" "i \<in> fst ` set (intervals s)"
  shows "engine_inv t' (intervalCallback ap i t' s)"
proof -
  from assms obtain c e where iv: "intervals s = [(i, c)]"
    and tr: "timerIdRef s = Some i" "i \<noteq> 0"
    and st: "stage s = RUNNING"
    and en: "endTimeRef s = Some e" "0 < e" "e \<le> t + totalDurationRef s"
    by (auto simp: engine_inv_def)
  from assms st have T: "0 < totalDurationRef s"
    and rest: "0 < t'" "0 < nextTimerId s" "0 < durationMinutes (session s)"
      "0 < smoothProgress s" "smoothProgress s \<le> 100"
    by (auto simp: engine_inv_def)
  show ?thesis
  proof (cases "e - t' \<le> 0")
    case True
    then show ?thesis
      using iv tr st en rest T
      by (cases ap) (simp_all add: engine_inv_def handler_defs Let_def)
  next
    case False
    then have d: "0 < e - t'" by simp
    have "e - t' \<le> totalDurationRef s" using en assms(2) by simp
    note pb = percentage_bounds[OF T d this]
    show ?thesis
      using iv tr st en rest T False pb assms(2)
      by (simp add: engine_inv_def handler_defs Let_def max_def)
  qed
qed

lemma inv_step:
  assumes "engine_inv t s" "t \<le> t'" "offered ev s"
  shows "engine_inv t' (fire ev t' s)"
proof (cases ev)
  case Start
  then show ?thesis using assms by (simp add: inv_start)
next
  case Pause
  then show ?thesis using assms by (simp add: inv_pause)
next
  case Resume
  then show ?thesis using assms by (simp add: inv_resume)
next
  case Stop
  then show ?thesis using assms by (simp add: inv_stop)
next
  case StartNewSession
  then show ?thesis using assms by (auto simp: engine_inv_def startNewSession_def)
next
  case (Tick i ap)
  then show ?thesis using assms by (simp add: inv_tick)
next
  case (SelectCategory c)
  then show ?thesis using assms by (auto simp: engine_inv_def selectCategory_def)
next
  case (SelectDuration d)
  then show ?thesis
    using assms by (auto simp: engine_inv_def selectDuration_def PRESET_TIMES_def)
next
  case (EditIntention x)
  then show ?thesis using assms by (auto simp: engine_inv_def editIntention_def)
next
  case (TipResolved x)
  then show ?thesis using assms by (auto simp: engine_inv_def tipResolved_def)
next
  case (TipRejected x)
  then show ?thesis using assms by (auto simp: engine_inv_def tipRejected_def)
next
  case (CelebrationResolved x)
  then show ?thesis using assms by (auto simp: engine_inv_def celebrationResolved_def)
next
  case (CelebrationRejected x)
  then show ?thesis using assms by (auto simp: engine_inv_def celebrationRejected_def)
qed

lemma reachable_inv: "reachable t s \<Longrightarrow> engine_inv t s"
  by (induction rule: reachable.induct) (auto intro: inv_initial inv_step)

subsection \<open>Some concrete reachable states\<close>

lemma reachable_started: "reachable 1000 (handleStart 1000 initial)"
proof -
  have "reachable 1000 initial" by (rule reachable_initial) simp
  then have "reachable 1000 (fire Start 1000 initial)"
    by (rule reachable_step) (simp_all add: initial_def)
  then show ?thesis by simp
qed

lemma reachable_paused: "reachable 2000 (handlePause (handleStart 1000 initial))"
proof -
  have "reachable 2000 (fire Pause 2000 (handleStart 1000 initial))"
    using reachable_started by (rule reachable_step) (simp_all add: handleStart_def Let_def)
  then show ?thesis by simp
qed

lemma reachable_sampled:
  "reachable 751000 (intervalCallback Appended 1 751000 (handleStart 1000 initial))"
proof -
  have "reachable 751000 (fire (Tick 1 Appended) 751000 (handleStart 1000 initial))"
    using reachable_started
    by (rule reachable_step) (simp_all add: handleStart_def initial_def Let_def)
  then show ?thesis by simp
qed

subsection \<open>Starting\<close>

text \<open>
  Claim C7. For every valid \<open>durationMinutes > 0\<close>, calling \<open>start()\<close> and immediately
  sampling the countdown yields \<open>remainingPercentage = 100\<close> and
  \<open>remainingSeconds = durationMinutes \<times> 60\<close>. These are the values \<open>handleStart\<close>
  writes; and when the number of minutes is whole, a tick of the new task at the very
  instant of the start computes the same two values again.
\<close>

theorem start_then_sample:
  assumes "0 < durationMinutes (session s)"
  shows "smoothProgress (handleStart now s) = 100 \<and>
         timeLeft (handleStart now s) = durationMinutes (session s) * 60 \<and>
         (0 \<le> now \<and> durationMinutes (session s) = of_int k \<longrightarrow>
            smoothProgress (intervalCallback ap (nextTimerId s) now (handleStart now s)) = 100 \<and>
            timeLeft (intervalCallback ap (nextTimerId s) now (handleStart now s))
              = durationMinutes (session s) * 60)"
proof (intro conjI impI)
  show "smoothProgress (handleStart now s) = 100"
    by (simp add: handleStart_def Let_def)
  show "timeLeft (handleStart now s) = durationMinutes (session s) * 60"
    by (simp add: handleStart_def Let_def)
next
  assume h: "0 \<le> now \<and> durationMinutes (session s) = of_int k"
  let ?d = "durationMinutes (session s)"
  let ?s = "handleStart now s"
  have iv: "intervals ?s = intervals s @ [(nextTimerId s, session s)]"
    by (simp add: handleStart_def Let_def)
  obtain c where c: "map_of (intervals ?s) (nextTimerId s) = Some c"
    by (cases "map_of (intervals s) (nextTimerId s)") (simp_all add: iv map_add_def)
  have e: "endTimeRef ?s = Some (now + ?d * 60000)"
    by (simp add: handleStart_def Let_def)
  have T: "totalDurationRef ?s = ?d * 60000"
    by (simp add: handleStart_def Let_def)
  have ne: "now + ?d * 60000 \<noteq> 0" and pos: "\<not> ?d * 60000 \<le> 0"
    using assms h by (simp_all add: add_nonneg_pos less_imp_neq[THEN not_sym])
  have ceil: "of_int \<lceil>?d * 60000 / 1000\<rceil> = ?d * 60"
  proof -
    have "?d * 60000 / 1000 = of_int (k * 60)" using h by simp
    then have "of_int \<lceil>?d * 60000 / 1000\<rceil> = (of_int (k * 60) :: rat)"
      by (simp only: ceiling_of_int)
    also have "\<dots> = ?d * 60" using h by simp
    finally show ?thesis .
  qed
  have cb: "intervalCallback ap (nextTimerId s) now ?s =
        ?s\<lparr>smoothProgress := max 0 ((?d * 60000) / (?d * 60000) * 100),
           timeLeft := of_int \<lceil>?d * 60000 / 1000\<rceil>\<rparr>"
    using c e T ne pos by (simp add: intervalCallback_def Let_def)
  show "smoothProgress (intervalCallback ap (nextTimerId s) now ?s) = 100"
    using assms by (simp add: cb)
  show "timeLeft (intervalCallback ap (nextTimerId s) now ?s) = ?d * 60"
    by (simp only: cb ceil) simp
qed

theorem start_then_sample_witness:
  "0 < durationMinutes (session initial) \<and>
   (0::rat) \<le> 1000 \<and> durationMinutes (session initial) = of_int 25 \<and>
   smoothProgress (handleStart 1000 initial) = 100 \<and>
   timeLeft (handleStart 1000 initial) = 1500 \<and>
   smoothProgress (intervalCallback Appended 1 1000 (handleStart 1000 initial)) = 100 \<and>
   timeLeft (intervalCallback Appended 1 1000 (handleStart 1000 initial)) = 1500"
proof -
  have h: "0 < durationMinutes (session initial)" by (simp add: initial_def)
  have n: "nextTimerId initial = 1" and d: "durationMinutes (session initial) = 25"
    by (simp_all add: initial_def)
  from start_then_sample [OF h, of 1000 25 Appended] show ?thesis
    by (simp add: n d)
qed

text \<open>
  Claim C3, as the code has it. \<open>handleStart\<close> validates nothing: it moves to RUNNING
  for every \<open>durationMinutes\<close>, with a total of \<open>durationMinutes \<times> 60000\<close>
  milliseconds. A configuration with \<open>durationMinutes \<le> 0\<close> cannot be produced through
  the setup view: it offers the presets only, and the default is 25, so in every
  reachable state \<open>durationMinutes > 0\<close>.
\<close>

theorem start_never_validates:
  "stage (handleStart now s) = RUNNING \<and>
   totalDurationRef (handleStart now s) = durationMinutes (session s) * 60000 \<and>
   (reachable t s \<longrightarrow> 0 < durationMinutes (session s))"
proof (intro conjI impI)
  show "stage (handleStart now s) = RUNNING"
    by (simp add: handleStart_def Let_def)
  show "totalDurationRef (handleStart now s) = durationMinutes (session s) * 60000"
    by (simp add: handleStart_def Let_def)
  show "0 < durationMinutes (session s)" if "reachable t s"
    using reachable_inv[OF that] by (simp add: engine_inv_def)
qed

theorem start_never_validates_witness:
  "reachable 1000 (handleStart 1000 initial) \<and>
   stage (handleStart 2000 (handleStart 1000 initial)) = RUNNING \<and>
   0 < durationMinutes (session (handleStart 1000 initial))"
  using start_never_validates [of 2000 "handleStart 1000 initial" 1000] reachable_started
  by simp

text \<open>
  Claim C3, as the specification states it, fails: with \<open>durationMinutes = 0\<close> the
  machine is in SETUP before \<open>handleStart\<close> and in RUNNING after it.
\<close>

theorem start_rejects_nonpositive_counterexample:
  "durationMinutes (session (initial\<lparr>session := (session initial)\<lparr>durationMinutes := 0\<rparr>\<rparr>)) \<le> 0 \<and>
   stage (initial\<lparr>session := (session initial)\<lparr>durationMinutes := 0\<rparr>\<rparr>) = SETUP \<and>
   stage (handleStart 1000 (initial\<lparr>session := (session initial)\<lparr>durationMinutes := 0\<rparr>\<rparr>))
     = RUNNING"
  by (simp add: handleStart_def Let_def initial_def)

subsection \<open>Pausing and resuming\<close>




subsection \<open>The tick\<close>

text \<open>
  What a tick computes when \<open>diff = endTimestamp - now > 0\<close> and the total is positive:
  \<open>max(0, diff / totalDurationMs \<times> 100)\<close>, clamped below only. The value is positive,
  and it is at most 100 exactly when \<open>diff\<close> does not exceed the total.
\<close>

lemma percentage_clamped_below_only:
  assumes "map_of (intervals s) i = Some c"
    and "endTimeRef s = Some e" and "e \<noteq> 0" and "0 < e - now"
    and "0 < totalDurationRef s"
  shows "smoothProgress (intervalCallback ap i now s)
           = max 0 ((e - now) / totalDurationRef s * 100) \<and>
         0 < smoothProgress (intervalCallback ap i now s) \<and>
         (smoothProgress (intervalCallback ap i now s) \<le> 100
            \<longleftrightarrow> e - now \<le> totalDurationRef s)"
proof -
  have cb: "smoothProgress (intervalCallback ap i now s)
      = max 0 ((e - now) / totalDurationRef s * 100)"
    using assms by (simp add: intervalCallback_def Let_def)
  have pos: "0 < (e - now) / totalDurationRef s * 100"
    using assms(4,5) by simp
  then have m: "max 0 ((e - now) / totalDurationRef s * 100) = (e - now) / totalDurationRef s * 100"
    by (simp add: max_def)
  show ?thesis
    using pos percentage_le_100_iff[OF assms(5), of "e - now"] by (simp only: cb m)
qed

text \<open>
  Claim C5 at a concrete session. The state \<open>smoothProgress\<close> is declared in the
  source as a "0-100 float", and the callbacks clamp the quotient at 0; nothing clamps
  it at 100. A session of 25 minutes starts when the clock reads 1000; the clock is
  then set back and reads 0 at the next tick; \<open>diff\<close> is 1501000, above the total of
  1500000, and the percentage written is 1501/15, above 100.
\<close>

theorem percentage_exceeds_100_after_clock_setback:
  "totalDurationRef (handleStart 1000 initial) = 1500000 \<and>
   endTimeRef (handleStart 1000 initial) = Some 1501000 \<and>
   smoothProgress (intervalCallback Appended 1 0 (handleStart 1000 initial)) = 1501 / 15 \<and>
   100 < smoothProgress (intervalCallback Appended 1 0 (handleStart 1000 initial))"
  by (simp add: intervalCallback_def handleStart_def initial_def Let_def)

text \<open>
  Claim C8. While the machine is RUNNING with a fixed \<open>endTimestamp\<close>, for sample times
  \<open>t1 \<le> t2\<close> the \<open>remainingSeconds\<close> computed at \<open>t2\<close> is at most the one computed at
  \<open>t1\<close>. This holds for two ticks of the same state, and for two successive ticks, the
  second of which may be the one that completes the session.
\<close>

theorem remaining_seconds_monotone:
  assumes "t1 \<le> t2"
  shows "timeLeft (intervalCallback Appended i t2 (intervalCallback Appended i t1 s))
           \<le> timeLeft (intervalCallback Appended i t1 s) \<and>
         (map_of (intervals s) i = Some c \<and> endTimeRef s = Some e \<and> e \<noteq> 0 \<longrightarrow>
            timeLeft (intervalCallback Appended i t2 s)
              \<le> timeLeft (intervalCallback Appended i t1 s))"
proof (cases "map_of (intervals s) i")
  case None
  then show ?thesis by (simp add: intervalCallback_def)
next
  case iv: (Some c')
  show ?thesis
  proof (cases "endTimeRef s")
    case None
    then show ?thesis using iv by (simp add: intervalCallback_def)
  next
    case en: (Some e')
    show ?thesis
    proof (cases "e' = 0")
      case True
      then show ?thesis using en iv by (simp add: intervalCallback_def)
    next
      case nz: False
      show ?thesis
      proof (cases "e' - t1 \<le> 0")
        case True
        then have "e' - t2 \<le> 0" using assms by simp
        then show ?thesis using True en nz iv
          by (simp add: handler_defs Let_def split: option.splits)
      next
        case d1: False
        have m: "\<lceil>(e' - t2) / 1000\<rceil> \<le> \<lceil>(e' - t1) / 1000\<rceil>"
          using assms by (intro ceiling_mono) (simp add: divide_right_mono)
        have pos: "0 < \<lceil>(e' - t1) / 1000\<rceil>" using d1 by simp
        show ?thesis using d1 en nz iv m pos
          by (auto simp add: handler_defs Let_def split: option.splits)
      qed
    qed
  qed
qed

theorem remaining_seconds_monotone_witness:
  "(2000::rat) \<le> 62000 \<and>
   map_of (intervals (handleStart 1000 initial)) 1 = Some (session initial) \<and>
   endTimeRef (handleStart 1000 initial) = Some 1501000 \<and> (1501000::rat) \<noteq> 0 \<and>
   timeLeft (intervalCallback Appended 1 62000 (handleStart 1000 initial))
     \<le> timeLeft (intervalCallback Appended 1 2000 (handleStart 1000 initial)) \<and>
   timeLeft (intervalCallback Appended 1 2000 (handleStart 1000 initial)) = 1499 \<and>
   timeLeft (intervalCallback Appended 1 62000 (handleStart 1000 initial)) = 1439"
proof -
  let ?s = "handleStart 1000 initial"
  have h: "(2000::rat) \<le> 62000" by simp
  have h1: "map_of (intervals ?s) 1 = Some (session initial)"
    by (simp add: handleStart_def initial_def Let_def)
  have h2: "endTimeRef ?s = Some 1501000"
    by (simp add: handleStart_def initial_def Let_def)
  have v1: "timeLeft (intervalCallback Appended 1 2000 ?s) = 1499"
    by (simp add: intervalCallback_def handleStart_def initial_def Let_def)
  have v2: "timeLeft (intervalCallback Appended 1 62000 ?s) = 1439"
    by (simp add: intervalCallback_def handleStart_def initial_def Let_def)
  from remaining_seconds_monotone [OF h, of 1 ?s "session initial" 1501000] h1 h2
  have "timeLeft (intervalCallback Appended 1 62000 ?s)
      \<le> timeLeft (intervalCallback Appended 1 2000 ?s)" by simp
  with h h1 h2 v1 v2 show ?thesis by simp
qed

subsection \<open>Completion\<close>

text \<open>
  Claim C2. Take any reachable RUNNING state, with total duration \<open>T\<close> and the clock
  reading \<open>t\<close>, in which no append has failed. Exactly one periodic task is active and
  the session is due at some \<open>e\<close> no later than \<open>t + T\<close>, so when the clock has advanced
  by at least \<open>T\<close> the deadline has passed. A tick of that task at any time from \<open>e\<close> on
  invokes \<open>handleComplete\<close> once (one completion cue is played) and, the append
  succeeding, leaves the machine COMPLETED with \<open>remainingSeconds = 0\<close>,
  \<open>remainingPercentage = 0\<close> and no task in the interval table: no later tick of any
  handle, at any time, changes the state, so \<open>handleComplete\<close> is not invoked again.
  A tick before \<open>e\<close> does not invoke it.
\<close>

theorem completion_fires_once:
  assumes "reachable t s" and "stage s = RUNNING"
    and "AppendFailure \<notin> set (unhandledRejections s)"
  shows "\<exists>i c e. intervals s = [(i, c)] \<and> endTimeRef s = Some e \<and>
           e \<le> t + totalDurationRef s \<and>
           (\<forall>now. e \<le> now \<longrightarrow>
              cues (intervalCallback Appended i now s) = cues s @ [PlayComplete] \<and>
              intervals (intervalCallback Appended i now s) = [] \<and>
              stage (intervalCallback Appended i now s) = COMPLETED \<and>
              timeLeft (intervalCallback Appended i now s) = 0 \<and>
              smoothProgress (intervalCallback Appended i now s) = 0 \<and>
              (\<forall>ap j now'. intervalCallback ap j now' (intervalCallback Appended i now s)
                 = intervalCallback Appended i now s)) \<and>
           (\<forall>now ap. now < e \<longrightarrow>
              cues (intervalCallback ap i now s) = cues s \<and>
              intervals (intervalCallback ap i now s) = intervals s \<and>
              stage (intervalCallback ap i now s) = RUNNING)"
proof -
  from reachable_inv[OF assms(1)] assms(2,3) obtain i c e where
    iv: "intervals s = [(i, c)]" and tr: "timerIdRef s = Some i" "i \<noteq> 0"
    and en: "endTimeRef s = Some e" "0 < e" "e \<le> t + totalDurationRef s"
    by (auto simp: engine_inv_def)
  have due: "cues (intervalCallback Appended i now s) = cues s @ [PlayComplete] \<and>
      intervals (intervalCallback Appended i now s) = [] \<and>
      stage (intervalCallback Appended i now s) = COMPLETED \<and>
      timeLeft (intervalCallback Appended i now s) = 0 \<and>
      smoothProgress (intervalCallback Appended i now s) = 0 \<and>
      (\<forall>ap j now'. intervalCallback ap j now' (intervalCallback Appended i now s)
         = intervalCallback Appended i now s)" if "e \<le> now" for now
  proof -
    from that have "e - now \<le> 0" by simp
    with iv tr en show ?thesis by (simp add: handler_defs Let_def)
  qed
  have early: "cues (intervalCallback ap i now s) = cues s \<and>
      intervals (intervalCallback ap i now s) = intervals s \<and>
      stage (intervalCallback ap i now s) = RUNNING" if "now < e" for now ap
  proof -
    from that have "\<not> e - now \<le> 0" by simp
    with iv en assms(2) show ?thesis by (simp add: intervalCallback_def Let_def)
  qed
  from iv en(1,3) due early show ?thesis by blast
qed

theorem completion_fires_once_witness:
  "reachable 751000 (intervalCallback Appended 1 751000 (handleStart 1000 initial)) \<and>
   stage (intervalCallback Appended 1 751000 (handleStart 1000 initial)) = RUNNING \<and>
   AppendFailure \<notin> set (unhandledRejections
      (intervalCallback Appended 1 751000 (handleStart 1000 initial))) \<and>
   endTimeRef (intervalCallback Appended 1 751000 (handleStart 1000 initial))
     = Some 1501000 \<and>
   stage (intervalCallback Appended 1 1501000
      (intervalCallback Appended 1 751000 (handleStart 1000 initial))) = COMPLETED \<and>
   timeLeft (intervalCallback Appended 1 1501000
      (intervalCallback Appended 1 751000 (handleStart 1000 initial))) = 0 \<and>
   smoothProgress (intervalCallback Appended 1 1501000
      (intervalCallback Appended 1 751000 (handleStart 1000 initial))) = 0 \<and>
   stage (intervalCallback Appended 1 1500999
      (intervalCallback Appended 1 751000 (handleStart 1000 initial))) = RUNNING"
proof -
  let ?s = "intervalCallback Appended 1 751000 (handleStart 1000 initial)"
  have h2: "stage ?s = RUNNING"
    and h3: "AppendFailure \<notin> set (unhandledRejections ?s)"
    and iv: "intervals ?s = [(1, session initial)]"
    and en: "endTimeRef ?s = Some 1501000"
    by (simp_all add: intervalCallback_def handleStart_def initial_def Let_def)
  from completion_fires_once [OF reachable_sampled h2 h3] obtain i c e where
    a: "intervals ?s = [(i, c)]" and b: "endTimeRef ?s = Some e"
    and due: "\<forall>now. e \<le> now \<longrightarrow>
        cues (intervalCallback Appended i now ?s) = cues ?s @ [PlayComplete] \<and>
        intervals (intervalCallback Appended i now ?s) = [] \<and>
        stage (intervalCallback Appended i now ?s) = COMPLETED \<and>
        timeLeft (intervalCallback Appended i now ?s) = 0 \<and>
        smoothProgress (intervalCallback Appended i now ?s) = 0 \<and>
        (\<forall>ap j now'. intervalCallback ap j now' (intervalCallback Appended i now ?s)
           = intervalCallback Appended i now ?s)"
    and early: "\<forall>now ap. now < e \<longrightarrow>
        cues (intervalCallback ap i now ?s) = cues ?s \<and>
        intervals (intervalCallback ap i now ?s) = intervals ?s \<and>
        stage (intervalCallback ap i now ?s) = RUNNING"
    by blast
  from a iv have i: "i = 1" by simp
  from b en have e: "e = 1501000" by simp
  from due have d: "stage (intervalCallback Appended 1 1501000 ?s) = COMPLETED \<and>
      timeLeft (intervalCallback Appended 1 1501000 ?s) = 0 \<and>
      smoothProgress (intervalCallback Appended 1 1501000 ?s) = 0"
    unfolding i e by simp
  from early have r: "stage (intervalCallback Appended 1 1500999 ?s) = RUNNING"
    unfolding i e by simp
  from reachable_sampled h2 h3 en d r show ?thesis by blast
qed

subsection \<open>One task at a time\<close>

text \<open>
  Claim C4, as the code has it. In every reachable state at most one periodic task is
  active. This is not because \<open>handleStart\<close> or \<open>handleResume\<close> halt a prior task (they
  do not), but because the view offers the start button only in SETUP and the resume
  button only in PAUSED, and a task never survives a pause, an abandon or a
  completion. \<open>handlePause\<close> on a machine that is already PAUSED changes nothing except
  that the pause cue is played once more.
\<close>

theorem single_task_when_reachable:
  assumes "reachable t s"
  shows "length (intervals s) \<le> 1 \<and>
         (stage s \<noteq> RUNNING \<longrightarrow> intervals s = []) \<and>
         (stage s = PAUSED \<longrightarrow> handlePause s = s\<lparr>cues := cues s @ [PlayPause]\<rparr>)"
proof -
  note inv = reachable_inv[OF assms]
  have a: "length (intervals s) \<le> 1"
    using inv by (auto simp: engine_inv_def)
  have b: "intervals s = []" if "stage s \<noteq> RUNNING"
    using inv that by (auto simp: engine_inv_def)
  have c: "handlePause s = s\<lparr>cues := cues s @ [PlayPause]\<rparr>" if "stage s = PAUSED"
  proof -
    from inv that have "timerIdRef s = None" by (simp add: engine_inv_def)
    then show ?thesis using that by (simp add: handlePause_def Let_def)
  qed
  from a b c show ?thesis by blast
qed

theorem single_task_when_reachable_witness:
  "reachable 2000 (handlePause (handleStart 1000 initial)) \<and>
   stage (handlePause (handleStart 1000 initial)) = PAUSED \<and>
   intervals (handlePause (handleStart 1000 initial)) = [] \<and>
   handlePause (handlePause (handleStart 1000 initial))
     = (handlePause (handleStart 1000 initial))
         \<lparr>cues := cues (handlePause (handleStart 1000 initial)) @ [PlayPause]\<rparr>"
proof -
  have p: "stage (handlePause (handleStart 1000 initial)) = PAUSED"
    by (simp add: handlePause_def Let_def)
  from single_task_when_reachable [OF reachable_paused] p reachable_paused
  show ?thesis by simp
qed

text \<open>
  Claim C4, as the specification states it, fails. \<open>handleResume\<close> on a RUNNING machine
  is not a no-op and does not halt the task that is active: a second task is installed
  beside the first.
\<close>

theorem resume_on_running_counterexample:
  "stage (handleStart 1000 initial) = RUNNING \<and>
   map fst (intervals (handleStart 1000 initial)) = [1] \<and>
   map fst (intervals (handleResume 2000 (handleStart 1000 initial))) = [1, 2] \<and>
   handleResume 2000 (handleStart 1000 initial) \<noteq> handleStart 1000 initial"
proof -
  have a: "map fst (intervals (handleStart 1000 initial)) = [1]"
    and b: "map fst (intervals (handleResume 2000 (handleStart 1000 initial))) = [1, 2]"
    and c: "stage (handleStart 1000 initial) = RUNNING"
    by (simp_all add: handleResume_def handleStart_def initial_def Let_def)
  from a b have "handleResume 2000 (handleStart 1000 initial) \<noteq> handleStart 1000 initial"
    by (metis list.inject list.distinct(1) list.simps(9))
  with a b c show ?thesis by simp
qed

subsection \<open>What is persisted\<close>

text \<open>
  Claim C6 at a concrete session. The tip arrives while the session is running and is
  attached to the configuration; the session completes without having been paused.
  The record handed to \<open>saveSession\<close> is the configuration as it was when the start
  button was pressed: duration, category and intention are right, the motivation is
  absent although one is attached when the session completes, and no completion time
  is set by this component.
\<close>

theorem stale_session_persisted:
  "stage tip_then_complete = COMPLETED \<and>
   aiMotivation (session tip_then_complete) = Some ''Keep going'' \<and>
   saved tip_then_complete =
     [\<lparr>durationMinutes = 25, category = FOCUS, intention = ''Finish report'',
       aiMotivation = None, completedAt = None\<rparr>]"
  by (simp add: tip_then_complete_def handler_defs control_defs initial_def Let_def)

subsection \<open>Failing collaborators\<close>

text \<open>
  Claim C9 at two concrete sessions. A failing tip fetch is caught and logged, and the
  machine keeps running. A failing celebration fetch arrives after the machine is
  COMPLETED and leaves the message empty, so the view shows its default text; but
  nothing catches it and nothing logs it: the rejection is left unhandled.
\<close>

theorem celebration_failure_uncaught:
  "stage tip_fetch_fails = RUNNING \<and>
   aiMotivation (session tip_fetch_fails) = None \<and>
   motivationLoading tip_fetch_fails = False \<and>
   consoleErrors tip_fetch_fails = [''network''] \<and>
   unhandledRejections tip_fetch_fails = [] \<and>
   stage celebration_fetch_fails = COMPLETED \<and>
   celebrationMsg celebration_fetch_fails = [] \<and>
   consoleErrors celebration_fetch_fails = [] \<and>
   unhandledRejections celebration_fetch_fails = [CelebrationFailure ''network'']"
  by (simp add: tip_fetch_fails_def celebration_fetch_fails_def handler_defs control_defs
        initial_def Let_def)

text \<open>
  Claim C10 at a concrete session. \<open>saveSession\<close> is called before the stage is set;
  when it throws, the interval has already been cleared and nothing after the call
  runs: the machine stays RUNNING without a task, the display keeps its last values,
  and no celebration message is requested.
\<close>

theorem append_failure_blocks_completion:
  "stage append_throws = RUNNING \<and>
   intervals append_throws = [] \<and>
   timeLeft append_throws = 1500 \<and>
   smoothProgress append_throws = 100 \<and>
   saved append_throws = [] \<and>
   celebrationRequests append_throws = [] \<and>
   unhandledRejections append_throws = [AppendFailure]"
  by (simp add: append_throws_def handler_defs initial_def Let_def)

end
